theory Spec2Isabelle
  imports Main "HOL-Library.Word"
begin

section \<open>Wide strings\<close>

text \<open>
  The launcher is a Windows program: \<open>wchar_t\<close> is an unsigned 16-bit code unit and
  \<open>char\<close> is 8 bits wide. A \<open>std::wstring\<close> is a list of code units; it may hold
  the code unit 0 anywhere.

  The loop counters of the source are C++ \<open>int\<close>. They are modelled as unbounded
  integers, which is what the source computes on every string shorter than \<open>2^30\<close>
  code units (a Windows command line or path is at most 32767 code units long).
\<close>

type_synonym wchar = "16 word"
type_synonym wstring = "wchar list"

definition quote :: wchar where "quote = 0x22"
definition bslash :: wchar where "bslash = 0x5C"
definition space :: wchar where "space = 0x20"
definition dot :: wchar where "dot = 0x2E"
definition colon :: wchar where "colon = 0x3A"
definition newline :: wchar where "newline = 0x0A"

text \<open>A wide string literal \<open>L"..."\<close> of ASCII characters.\<close>

definition L :: "string \<Rightarrow> wstring" where
  "L cs = map of_char cs"

text \<open>
  \<open>s[i]\<close> on a \<open>const std::wstring\<close>: the code unit at \<open>i\<close> below \<open>s.size()\<close>, the
  terminator \<open>L'\0'\<close> at \<open>i = s.size()\<close>, undefined behaviour (\<open>None\<close>) beyond.
\<close>

definition wat :: "wstring \<Rightarrow> int \<Rightarrow> wchar option" where
  "wat s i =
     (if 0 \<le> i \<and> i < int (length s) then Some (s ! nat i)
      else if i = int (length s) then Some 0
      else None)"

text \<open>
  \<open>i < s.size()\<close> with an \<open>int i\<close>: the comparison converts \<open>i\<close> to \<open>size_t\<close>, so a
  negative \<open>i\<close> compares as larger than every size.
\<close>

definition lt_size :: "int \<Rightarrow> wstring \<Rightarrow> bool" where
  "lt_size i s = (0 \<le> i \<and> i < int (length s))"

text \<open>
  \<open>s.substr(pos, n)\<close> and \<open>s.substr(pos)\<close>: they throw \<open>std::out_of_range\<close> (\<open>None\<close>)
  when \<open>pos > s.size()\<close>; an \<open>int\<close> argument is converted to \<open>size_t\<close>, so a negative
  \<open>pos\<close> is out of range and a negative \<open>n\<close> takes the whole rest.
\<close>

definition substr :: "wstring \<Rightarrow> int \<Rightarrow> int \<Rightarrow> wstring option" where
  "substr s pos n =
     (if 0 \<le> pos \<and> pos \<le> int (length s)
      then Some (if n < 0 then drop (nat pos) s else take (nat n) (drop (nat pos) s))
      else None)"

definition substr_from :: "wstring \<Rightarrow> int \<Rightarrow> wstring option" where
  "substr_from s pos =
     (if 0 \<le> pos \<and> pos \<le> int (length s) then Some (drop (nat pos) s) else None)"

section \<open>BashEscapeArg\<close>

text \<open>One round of the range-for loop: the \<open>switch\<close> on the wide character.\<close>

definition bash_step :: "wstring \<Rightarrow> wchar \<Rightarrow> wstring" where
  "bash_step escaped_arg ch =
     (if ch = quote then escaped_arg @ [bslash, quote]
      else if ch = bslash then escaped_arg @ [bslash, bslash]
      else escaped_arg @ [ch])"

definition BashEscapeArg :: "wstring \<Rightarrow> wstring" where
  "BashEscapeArg argument =
     (let has_space = (space \<in> set argument) in
      if argument = [] then [quote, quote]
      else
        (let escaped_arg = (if has_space then [quote] else []);
             escaped_arg = foldl bash_step escaped_arg argument
         in if has_space then escaped_arg @ [quote] else escaped_arg))"

section \<open>WindowsEscapeArg2\<close>

text \<open>The first loop: it compares wide characters and leaves at the first hit.\<close>

fun needs_escaping :: "wstring \<Rightarrow> bool" where
  "needs_escaping [] = False"
| "needs_escaping (c # cs) = (if c = space \<or> c = quote then True else needs_escaping cs)"

text \<open>
  The inner \<open>while (j < s.size() && s[j] == '\\')\<close>, which compares the wide
  character; it returns \<open>run_len\<close> and \<open>j\<close>.
\<close>

function count_run :: "wstring \<Rightarrow> int \<Rightarrow> int \<Rightarrow> (int \<times> int) option" where
  "count_run s run_len j =
     (if lt_size j s then
        (case wat s j of
           None \<Rightarrow> None
         | Some w \<Rightarrow>
             if w = bslash then count_run s (run_len + 1) (j + 1) else Some (run_len, j))
      else Some (run_len, j))"
  by pat_completeness auto
termination
  by (relation "measure (\<lambda>(s, run_len, j). nat (int (length s) - j))")
     (auto simp: lt_size_def)

declare count_run.simps [simp del]

lemma count_run_ge: "count_run s r j = Some (r', j') \<Longrightarrow> r \<le> r' \<and> j \<le> j'"
proof (induction s r j rule: count_run.induct)
  case (1 s run_len j)
  then show ?case
    by (subst (asm) (2) count_run.simps) (fastforce split: if_splits option.splits)
qed

text \<open>
  The narrowing \<open>char c = s[i]\<close>: the wide character is cut to its low 8 bits, and it
  is this \<open>char\<close> that the main loop compares with the quote and the backslash.
\<close>

definition to_char :: "wchar \<Rightarrow> 8 word" where
  "to_char w = ucast w"


text \<open>
  The main \<open>for (int i = 0; i < s.size(); ++i)\<close> loop, from the state at the head of
  a round (\<open>i\<close>, \<open>start\<close>, the stream \<open>result\<close>) to the state after the loop. The
  \<open>break\<close> leaves with the state it has; the two \<open>i += ...\<close> are followed by the
  \<open>++i\<close> of the loop.
\<close>

function esc_loop :: "wstring \<Rightarrow> int \<Rightarrow> int \<Rightarrow> wstring \<Rightarrow> (int \<times> wstring) option" where
  "esc_loop s i start result =
     (if lt_size i s then
        (case wat s i of
           None \<Rightarrow> None
         | Some w \<Rightarrow>
             if to_char w = 0x22 \<or> to_char w = 0x5C then
               (case (if 0 \<le> start
                      then map_option (\<lambda>seg. (- 1, result @ seg)) (substr s start (i - start))
                      else Some (start, result)) of
                  None \<Rightarrow> None
                | Some (start', result') \<Rightarrow>
                    if to_char w = 0x22 then
                      esc_loop s (i + 1) start' (result' @ [bslash, quote])
                    else
                      (case count_run s 1 (i + 1) of
                         None \<Rightarrow> None
                       | Some (run_len, j) \<Rightarrow>
                           if j = int (length s) then
                             Some (start', result' @ replicate (nat (run_len * 2)) bslash)
                           else if lt_size j s \<and> wat s j = Some quote then
                             esc_loop s (i + run_len + 1) start'
                               (result' @ replicate (nat (run_len * 2)) bslash @ [bslash, quote])
                           else
                             esc_loop s (i + (run_len - 1) + 1) start'
                               (result' @ replicate (nat run_len) bslash)))
             else esc_loop s (i + 1) (if start < 0 then i else start) result)
      else Some (start, result))"
  by pat_completeness auto
termination
proof (relation "measure (\<lambda>(s, i, start, result). nat (int (length s) - i))", goal_cases)
  case 1
  then show ?case by simp
next
  case (2 s i start result w x y)
  then show ?case by (simp add: lt_size_def)
next
  case (3 s i start result w x start' result' y run_len j)
  then show ?case using count_run_ge [of s 1 "i + 1" run_len j] by (simp add: lt_size_def)
next
  case (4 s i start result w x start' result' y run_len j)
  then show ?case using count_run_ge [of s 1 "i + 1" run_len j] by (simp add: lt_size_def)
next
  case (5 s i start result w)
  then show ?case by (simp add: lt_size_def)
qed

declare esc_loop.simps [simp del]

definition WindowsEscapeArg2 :: "wstring \<Rightarrow> wstring option" where
  "WindowsEscapeArg2 s =
     (if s = [] then Some [quote, quote]
      else if \<not> needs_escaping s then Some s
      else
        (case esc_loop s 0 0 [quote] of
           None \<Rightarrow> None
         | Some (start, result) \<Rightarrow>
             if start \<noteq> - 1
             then map_option (\<lambda>seg. result @ seg @ [quote]) (substr_from s start)
             else Some (result @ [quote])))"

section \<open>PrintError\<close>

text \<open>
  What a call can change outside its return value: the wide string that the
  out-parameter \<open>result\<close> points to, and the characters written to \<open>stderr\<close>.
\<close>

record state =
  result_buf :: wstring
  err_out :: wstring

text \<open>
  A \<open>%s\<close> argument \<open>x.c_str()\<close> of the wide \<open>printf\<close> family prints the characters
  before the first \<open>L'\0'\<close>.
\<close>

definition c_str :: "wstring \<Rightarrow> wstring" where
  "c_str s = takeWhile (\<lambda>c. c \<noteq> 0) s"

text \<open>
  \<open>PrintError\<close> writes the prefix, the formatted message and a line feed to \<open>stderr\<close>
  and returns; the translation mode it sets is put back before it returns. The message
  is passed already formatted.
\<close>

definition PrintError :: "wstring \<Rightarrow> state \<Rightarrow> state" where
  "PrintError message \<sigma> =
     \<sigma>\<lparr>err_out := err_out \<sigma> @ L ''LAUNCHER ERROR: '' @ message @ [newline]\<rparr>"

section \<open>IsAbsolute\<close>

text \<open>
  Modelled from the spec: \<open>blaze_util::IsAbsolute\<close> is declared in
  \<open>src/main/cpp/util/path_platform.h\<close>, which is not among the sources. The
  specification says of it: an absolute path begins with a drive identifier (a single
  letter followed by a colon); a relative path does not. \<open>RelativeTo\<close> below takes the
  classification as a parameter, and this one classifies the concrete paths below.
\<close>

definition is_letter :: "wchar \<Rightarrow> bool" where
  "is_letter c = ((0x41 \<le> c \<and> c \<le> 0x5A) \<or> (0x61 \<le> c \<and> c \<le> 0x7A))"

fun IsAbsolute :: "wstring \<Rightarrow> bool" where
  "IsAbsolute (c # d # rest) = (is_letter c \<and> d = colon)"
| "IsAbsolute _ = False"

text \<open>The drive identifier of an absolute path: the letter and the colon.\<close>

definition drive_identifier :: "wstring \<Rightarrow> wstring" where
  "drive_identifier p = take 2 p"

section \<open>RelativeTo\<close>

text \<open>
  The lockstep loop \<open>while (path[pos] == base[pos] && base[pos] != L'\0')\<close>, from
  \<open>pos\<close> and \<open>back_slash_pos\<close> at the head of a round to their values after the loop.
  Each round reads \<open>path[pos]\<close> and \<open>base[pos]\<close>; a read beyond the terminator is
  \<open>None\<close>.
\<close>

function scan :: "wstring \<Rightarrow> wstring \<Rightarrow> int \<Rightarrow> int \<Rightarrow> (int \<times> int) option" where
  "scan path base pos back_slash_pos =
     (case wat path pos of
        None \<Rightarrow> None
      | Some p \<Rightarrow>
          (case wat base pos of
             None \<Rightarrow> None
           | Some b \<Rightarrow>
               if p = b \<and> b \<noteq> 0
               then scan path base (pos + 1) (if p = bslash then pos else back_slash_pos)
               else Some (pos, back_slash_pos)))"
  by pat_completeness auto
termination
proof (relation "measure (\<lambda>(path, base, pos, back_slash_pos). nat (int (length base) - pos))",
    goal_cases)
  case 1
  then show ?case by simp
next
  case (2 path base pos back_slash_pos p b)
  then show ?case by (auto simp: wat_def split: if_splits)
qed

declare scan.simps [simp del]

text \<open>
  The loop \<open>for (int i = back_slash_pos + 1; i < base.length(); i++)\<close> that writes one
  \<open>..\\\<close> to the buffer for each backslash of \<open>base\<close> from \<open>i\<close> on.
\<close>

definition up_dir :: wstring where
  "up_dir = [dot, dot, bslash]"

function up_loop :: "wstring \<Rightarrow> int \<Rightarrow> wstring \<Rightarrow> wstring option" where
  "up_loop base i buffer =
     (if lt_size i base then
        (case wat base i of
           None \<Rightarrow> None
         | Some b \<Rightarrow> up_loop base (i + 1) (if b = bslash then buffer @ up_dir else buffer))
      else Some buffer)"
  by pat_completeness auto
termination
  by (relation "measure (\<lambda>(base, i, buffer). nat (int (length base) - i))")
     (auto simp: lt_size_def)

declare up_loop.simps [simp del]

text \<open>The two messages, with \<open>path.c_str()\<close> and \<open>base.c_str()\<close> formatted in.\<close>

definition mixed_message :: "wstring \<Rightarrow> wstring \<Rightarrow> wstring" where
  "mixed_message path base =
     L ''Cannot calculate relative path from an absolute and a non-absolute path.''
     @ [newline] @ L ''path = '' @ c_str path @ [newline] @ L ''base = '' @ c_str base"

definition drives_message :: "wstring \<Rightarrow> wstring \<Rightarrow> wstring" where
  "drives_message path base =
     L ''Cannot calculate relative path from absolute path under different drives.''
     @ [newline] @ L ''path = '' @ c_str path @ [newline] @ L ''base = '' @ c_str base"

text \<open>The body of \<open>RelativeTo\<close> after the two checks.\<close>

definition relative_body :: "wstring \<Rightarrow> wstring \<Rightarrow> state \<Rightarrow> (bool \<times> state) option" where
  "relative_body path base \<sigma> =
     (case scan path base 0 (- 1) of
        None \<Rightarrow> None
      | Some (pos, back_slash_pos0) \<Rightarrow>
          (case wat base pos of
             None \<Rightarrow> None
           | Some b \<Rightarrow>
               (case wat path pos of
                  None \<Rightarrow> None
                | Some p \<Rightarrow>
                    if b = 0 \<and> p = 0 then Some (True, \<sigma>\<lparr>result_buf := []\<rparr>)
                    else
                      (let back_slash_pos =
                             (if (b = 0 \<and> p = bslash) \<or> (b = bslash \<and> p = 0)
                              then pos else back_slash_pos0);
                           buffer =
                             (if lt_size (back_slash_pos + 1) base then up_dir else [])
                       in case up_loop base (back_slash_pos + 1) buffer of
                            None \<Rightarrow> None
                          | Some buffer \<Rightarrow>
                              if back_slash_pos \<noteq> int (length path) then
                                (case substr_from path (back_slash_pos + 1) of
                                   None \<Rightarrow> None
                                 | Some rest \<Rightarrow>
                                     Some (True, \<sigma>\<lparr>result_buf := buffer @ rest\<rparr>))
                              else Some (True, \<sigma>\<lparr>result_buf := buffer\<rparr>)))))"

text \<open>
  \<open>RelativeTo\<close>, with \<open>blaze_util::IsAbsolute\<close> as the parameter \<open>isabs\<close>. The result
  is the returned \<open>bool\<close> and the state after the call. \<open>path[0] != base[0]\<close> is read
  only when both paths are absolute. In \<open>back_slash_pos != path.length()\<close> the value
  \<open>-1\<close> is converted to the largest \<open>size_t\<close>, which no length reaches.
\<close>

definition RelativeTo ::
  "(wstring \<Rightarrow> bool) \<Rightarrow> wstring \<Rightarrow> wstring \<Rightarrow> state \<Rightarrow> (bool \<times> state) option" where
  "RelativeTo isabs path base \<sigma> =
     (if isabs path \<noteq> isabs base
      then Some (False, PrintError (mixed_message path base) \<sigma>)
      else if isabs path \<and> isabs base then
        (case wat path 0 of
           None \<Rightarrow> None
         | Some p0 \<Rightarrow>
             (case wat base 0 of
                None \<Rightarrow> None
              | Some b0 \<Rightarrow>
                  if p0 \<noteq> b0
                  then Some (False, PrintError (drives_message path base) \<sigma>)
                  else relative_body path base \<sigma>))
      else relative_body path base \<sigma>)"

text \<open>An invalid pair: what the two checks at the head of \<open>RelativeTo\<close> test.\<close>

definition invalid_pair :: "(wstring \<Rightarrow> bool) \<Rightarrow> wstring \<Rightarrow> wstring \<Rightarrow> bool" where
  "invalid_pair isabs path base =
     (if isabs path = isabs base then isabs path \<and> isabs base \<and> wat path 0 \<noteq> wat base 0
      else True)"

section \<open>Lexical resolution\<close>

text \<open>
  The consistency law of the specification resolves a relative path against \<open>base\<close>
  lexically. These definitions follow the specification's words, not the source: a path
  is cut at the backslashes into segments, empty segments are dropped, \<open>..\<close> removes
  the last segment, any other segment is added, and the segments are joined with
  backslashes again.
\<close>

definition dotdot :: wstring where
  "dotdot = [dot, dot]"

fun split_sep :: "wstring \<Rightarrow> wstring list" where
  "split_sep [] = [[]]"
| "split_sep (c # cs) =
     (if c = bslash then [] # split_sep cs
      else (case split_sep cs of
              [] \<Rightarrow> [[c]]
            | w # ws \<Rightarrow> (c # w) # ws))"

definition segments :: "wstring \<Rightarrow> wstring list" where
  "segments s = filter (\<lambda>w. w \<noteq> []) (split_sep s)"

fun join_sep :: "wstring list \<Rightarrow> wstring" where
  "join_sep [] = []"
| "join_sep [w] = w"
| "join_sep (w # v # ws) = w @ bslash # join_sep (v # ws)"

text \<open>
  A place is a drive identifier, if the path has one, and the segments below it. The
  drive identifier is no segment: \<open>..\<close> at the root of a drive stays there, so no
  relative path leaves the volume. \<open>..\<close> where a relative path has no segment left, or
  only \<open>..\<close> segments, climbs and is kept.
\<close>

type_synonym place = "wstring option \<times> wstring list"

definition parse_path :: "wstring \<Rightarrow> place" where
  "parse_path p =
     (if IsAbsolute p then (Some (drive_identifier p), segments (drop 2 p))
      else (None, segments p))"

fun apply_segment :: "place \<Rightarrow> wstring \<Rightarrow> place" where
  "apply_segment (drv, dirs) seg =
     (if seg = dotdot then
        (if dirs = [] then (case drv of None \<Rightarrow> (None, [dotdot]) | Some d \<Rightarrow> (Some d, []))
         else if last dirs = dotdot then (drv, dirs @ [dotdot])
         else (drv, butlast dirs))
      else (drv, dirs @ [seg]))"

fun render :: "place \<Rightarrow> wstring" where
  "render (None, dirs) = join_sep dirs"
| "render (Some d, dirs) = d @ bslash # join_sep dirs"

definition lexical_resolve :: "wstring \<Rightarrow> wstring \<Rightarrow> wstring" where
  "lexical_resolve base rel = render (foldl apply_segment (parse_path base) (segments rel))"





section \<open>Helper lemmas\<close>

lemma needs_escaping_iff: "needs_escaping s \<longleftrightarrow> space \<in> set s \<or> quote \<in> set s"
  by (induction s) auto

lemma RelativeTo_mixed:
  "isabs path \<noteq> isabs base \<Longrightarrow>
   RelativeTo isabs path base \<sigma> = Some (False, PrintError (mixed_message path base) \<sigma>)"
  by (simp add: RelativeTo_def)

lemma RelativeTo_drives:
  "isabs path \<Longrightarrow> isabs base \<Longrightarrow> wat path 0 \<noteq> wat base 0 \<Longrightarrow>
   RelativeTo isabs path base \<sigma> = Some (False, PrintError (drives_message path base) \<sigma>)"
  by (auto simp: RelativeTo_def wat_def split: option.splits if_splits)

lemma relative_body_True: "relative_body path base \<sigma> = Some (ok, \<sigma>') \<Longrightarrow> ok"
  by (auto simp: relative_body_def Let_def split: option.splits if_splits prod.splits)

lemma RelativeTo_False_cases:
  assumes "RelativeTo isabs path base \<sigma> = Some (False, \<sigma>')"
  shows "\<sigma>' = PrintError (mixed_message path base) \<sigma>
       \<or> \<sigma>' = PrintError (drives_message path base) \<sigma>"
  using assms
  by (auto simp: RelativeTo_def split: option.splits if_splits dest: relative_body_True)

lemma IsAbsolute_drive:
  assumes "IsAbsolute path" "IsAbsolute base" "drive_identifier path \<noteq> drive_identifier base"
  shows "wat path 0 \<noteq> wat base 0"
proof -
  obtain c rest where p: "path = c # colon # rest"
    using assms(1) by (cases path rule: IsAbsolute.cases) auto
  obtain d rest' where b: "base = d # colon # rest'"
    using assms(2) by (cases base rule: IsAbsolute.cases) auto
  from assms(3) p b have "c \<noteq> d" by (auto simp: drive_identifier_def)
  with p b show ?thesis by (simp add: wat_def)
qed




lemma split_sep_nonempty: "split_sep xs \<noteq> []"
  by (induction xs) (auto split: list.splits)

lemma split_sep_append: "split_sep (xs @ bslash # ys) = split_sep xs @ split_sep ys"
  by (induction xs) (auto simp: split_sep_nonempty split: list.splits)













lemma split_sep_cut:
  assumes "0 \<le> e" "e < int (length xs)" "xs ! nat e = bslash"
  shows "split_sep xs = split_sep (take (nat e) xs) @ split_sep (drop (nat (e + 1)) xs)"
proof -
  from assms have "xs = take (nat e) xs @ bslash # drop (Suc (nat e)) xs"
    using id_take_nth_drop [of "nat e" xs] by simp
  moreover from assms have "Suc (nat e) = nat (e + 1)" by simp
  ultimately have "xs = take (nat e) xs @ bslash # drop (nat (e + 1)) xs" by simp
  then have "split_sep xs = split_sep (take (nat e) xs @ bslash # drop (nat (e + 1)) xs)"
    by simp
  then show ?thesis by (simp only: split_sep_append)
qed

lemma segments_cut:
  assumes "0 \<le> e" "e < int (length xs)" "xs ! nat e = bslash"
  shows "segments xs = segments (take (nat e) xs) @ segments (drop (nat (e + 1)) xs)"
  using split_sep_cut [OF assms] by (simp add: segments_def)








lemma count_run_total:
  "0 \<le> j \<Longrightarrow> j \<le> int (length s) \<Longrightarrow>
   \<exists>r' j'. count_run s r j = Some (r', j') \<and> j \<le> j' \<and> j' \<le> int (length s)
      \<and> r' - r = j' - j"
proof (induction s r j rule: count_run.induct)
  case (1 s run_len j)
  show ?case
  proof (cases "lt_size j s")
    case True
    with "1.prems" have w: "wat s j = Some (s ! nat j)" by (simp add: wat_def lt_size_def)
    show ?thesis
    proof (cases "s ! nat j = bslash")
      case b: True
      from "1.IH" [OF True w b] True "1.prems"
      obtain r' j' where "count_run s (run_len + 1) (j + 1) = Some (r', j')"
        "j + 1 \<le> j'" "j' \<le> int (length s)" "r' - (run_len + 1) = j' - (j + 1)"
        by (auto simp: lt_size_def)
      with True w b show ?thesis by (subst count_run.simps) simp
    next
      case False
      with True w "1.prems" show ?thesis by (subst count_run.simps) simp
    qed
  next
    case False
    with "1.prems" show ?thesis by (subst count_run.simps) simp
  qed
qed

lemma esc_loop_total:
  "0 \<le> i \<Longrightarrow> i \<le> int (length s) \<Longrightarrow> start = - 1 \<or> (0 \<le> start \<and> start \<le> int (length s)) \<Longrightarrow>
   \<exists>st r. esc_loop s i start result = Some (st, r)
      \<and> (st = - 1 \<or> (0 \<le> st \<and> st \<le> int (length s)))"
proof (induction s i start result rule: esc_loop.induct)
  case (1 s i start result)
  show ?case
  proof (cases "lt_size i s")
    case False
    with "1.prems" show ?thesis by (subst esc_loop.simps) simp
  next
    case lt: True
    with "1.prems" have w: "wat s i = Some (s ! nat i)" by (simp add: wat_def lt_size_def)
    define w' where "w' = s ! nat i"
    note w = w [folded w'_def]
    show ?thesis
    proof (cases "to_char w' = 0x22 \<or> to_char w' = 0x5C")
      case False
      from "1.IH"(4) [OF lt w False] lt "1.prems"
      obtain st r where "esc_loop s (i + 1) (if start < 0 then i else start) result = Some (st, r)"
        "st = - 1 \<or> (0 \<le> st \<and> st \<le> int (length s))"
        by (auto simp: lt_size_def split: if_splits)
      with lt w False show ?thesis by (subst esc_loop.simps) simp
    next
      case special: True
      define result' where "result' = (if 0 \<le> start then result @ the (substr s start (i - start)) else result)"
      have pre: "(if 0 \<le> start
                      then map_option (\<lambda>seg. (- 1, result @ seg)) (substr s start (i - start))
                      else Some (start, result)) = Some (- 1, result')"
        using "1.prems" by (auto simp: substr_def result'_def)
      show ?thesis
      proof (cases "to_char w' = 0x22")
        case q: True
        from "1.IH"(1) [OF lt w special pre refl q] lt "1.prems"
        obtain st r where "esc_loop s (i + 1) (- 1) (result' @ [bslash, quote]) = Some (st, r)"
          "st = - 1 \<or> (0 \<le> st \<and> st \<le> int (length s))"
          by (auto simp: lt_size_def)
        with lt w special pre q show ?thesis by (subst esc_loop.simps) simp
      next
        case nq: False
        from count_run_total [of "i + 1" s 1] lt "1.prems"
        obtain run_len j where cr: "count_run s 1 (i + 1) = Some (run_len, j)"
          and j: "i + 1 \<le> j" "j \<le> int (length s)" "run_len - 1 = j - (i + 1)"
          by (auto simp: lt_size_def)
        show ?thesis
        proof (cases "j = int (length s)")
          case True
          with lt w special pre nq cr show ?thesis by (subst esc_loop.simps) simp
        next
          case nend: False
          show ?thesis
          proof (cases "lt_size j s \<and> wat s j = Some quote")
            case True
            from "1.IH"(2) [OF lt w special pre refl nq cr refl nend True] lt "1.prems" j True
            obtain st r where "esc_loop s (i + run_len + 1) (- 1)
                (result' @ replicate (nat (run_len * 2)) bslash @ [bslash, quote]) = Some (st, r)"
              "st = - 1 \<or> (0 \<le> st \<and> st \<le> int (length s))"
              by (auto simp: lt_size_def)
            with lt w special pre nq cr nend True show ?thesis by (subst esc_loop.simps) simp
          next
            case False
            from "1.IH"(3) [OF lt w special pre refl nq cr refl nend False] lt "1.prems" j
            obtain st r where "esc_loop s (i + (run_len - 1) + 1) (- 1)
                (result' @ replicate (nat run_len) bslash) = Some (st, r)"
              "st = - 1 \<or> (0 \<le> st \<and> st \<le> int (length s))"
              by (auto simp: lt_size_def)
            with lt w special pre nq cr nend False show ?thesis
              by (subst esc_loop.simps) auto
          qed
        qed
      qed
    qed
  qed
qed


lemma WindowsEscapeArg2_total: "\<exists>r. WindowsEscapeArg2 s = Some r"
proof -
  from esc_loop_total [of 0 s 0 "[quote]"]
  obtain st r where "esc_loop s 0 0 [quote] = Some (st, r)"
    "st = - 1 \<or> (0 \<le> st \<and> st \<le> int (length s))"
    by auto
  then show ?thesis by (auto simp: WindowsEscapeArg2_def substr_from_def)
qed


















lemma apply_segment_keeps_drive: "fst (foldl apply_segment pl segs) = fst pl"
proof (induction segs arbitrary: pl)
  case Nil
  then show ?case by simp
next
  case (Cons seg segs)
  obtain drv dirs where pl: "pl = (drv, dirs)" by (cases pl)
  have "fst (apply_segment (drv, dirs) seg) = drv"
    by (simp split: option.splits)
  with Cons [of "apply_segment pl seg"] pl show ?case by simp
qed

lemma lexical_resolve_stays_on_volume:
  "lexical_resolve (L ''C:'' @ [bslash] @ L ''a'')
     (L ''..'' @ [bslash] @ L ''..'' @ [bslash] @ L ''D:'' @ [bslash] @ L ''x'')
   = L ''C:'' @ [bslash] @ L ''D:'' @ [bslash] @ L ''x''"
  by code_simp

















section \<open>The round trip of the native quoting\<close>

text \<open>
  C1. Decoding \<open>WindowsEscapeArg2 s\<close> by the native rule gives \<open>s\<close> back, for every
  \<open>s\<close>. The main loop narrows each wide character to a \<open>char\<close> before it compares it,
  so the character U+0122, whose low byte is \<open>0x22\<close>, is written as an escaped double
  quote: the string of a space and U+0122 and the string of a space and a double quote
  are quoted to the same five characters, and no decoder gives both back.
  \<open>WindowsEscapeArg2\<close> does return on every string (\<open>WindowsEscapeArg2_total\<close>).
\<close>

theorem WindowsEscapeArg2_narrowing_collision:
  "WindowsEscapeArg2 [0x20, 0x122] = Some [0x22, 0x20, 0x5C, 0x22, 0x22]
   \<and> WindowsEscapeArg2 [0x20, 0x22] = Some [0x22, 0x20, 0x5C, 0x22, 0x22]
   \<and> \<not> (\<exists>decode. \<forall>s. map_option decode (WindowsEscapeArg2 s) = Some s)"
proof -
  have wide: "WindowsEscapeArg2 [0x20, 0x122] = Some [0x22, 0x20, 0x5C, 0x22, 0x22]"
    by code_simp
  have narrow: "WindowsEscapeArg2 [0x20, 0x22] = Some [0x22, 0x20, 0x5C, 0x22, 0x22]"
    by code_simp
  have "\<not> (\<exists>decode. \<forall>s. map_option decode (WindowsEscapeArg2 s) = Some s)"
  proof
    assume "\<exists>decode. \<forall>s. map_option decode (WindowsEscapeArg2 s) = Some s"
    then obtain decode :: "wstring \<Rightarrow> wstring"
      where d: "map_option decode (WindowsEscapeArg2 s) = Some s" for s
      by blast
    have "decode [0x22, 0x20, 0x5C, 0x22, 0x22] = [0x20, 0x122]"
      using d [of "[0x20, 0x122]"] unfolding wide by simp
    moreover have "decode [0x22, 0x20, 0x5C, 0x22, 0x22] = [0x20, 0x22]"
      using d [of "[0x20, 0x22]"] unfolding narrow by simp
    ultimately have "[0x20, 0x122] = [0x20, 0x22 :: wchar]" by simp
    then show False by simp
  qed
  with wide narrow show ?thesis by blast
qed

section \<open>Empty input\<close>

text \<open>
  C8. \<open>WindowsEscapeArg2\<close> of the empty string returns the two-character string of two
  double quotes, and \<open>BashEscapeArg\<close> of the empty string returns the same string.
\<close>

theorem empty_input_quoted:
  "WindowsEscapeArg2 [] = Some [0x22, 0x22] \<and> BashEscapeArg [] = [0x22, 0x22]"
  by (simp add: WindowsEscapeArg2_def BashEscapeArg_def quote_def)

section \<open>Strings that need no quoting\<close>

text \<open>
  C7, as stated: every string without a space and without a double quote is returned
  unchanged. The empty string has neither, and is returned as two double quotes: the
  test for the empty string comes first.
\<close>

theorem no_op_case_empty_counterexample:
  "space \<notin> set ([] :: wstring) \<and> quote \<notin> set ([] :: wstring) \<and> WindowsEscapeArg2 [] \<noteq> Some []"
  by (simp add: WindowsEscapeArg2_def)

text \<open>
  C7, amended: every non-empty string without a space and without a double quote,
  whatever else it holds, is returned unchanged.
\<close>

theorem no_op_case:
  "s \<noteq> [] \<Longrightarrow> space \<notin> set s \<Longrightarrow> quote \<notin> set s \<Longrightarrow> WindowsEscapeArg2 s = Some s"
  by (simp add: WindowsEscapeArg2_def needs_escaping_iff)

theorem no_op_case_witness:
  "L ''a'' @ [bslash] @ L ''b'' \<noteq> []
   \<and> space \<notin> set (L ''a'' @ [bslash] @ L ''b'')
   \<and> quote \<notin> set (L ''a'' @ [bslash] @ L ''b'')
   \<and> WindowsEscapeArg2 (L ''a'' @ [bslash] @ L ''b'') = Some (L ''a'' @ [bslash] @ L ''b'')"
proof -
  have 1: "L ''a'' @ [bslash] @ L ''b'' \<noteq> []" by simp
  have 2: "space \<notin> set (L ''a'' @ [bslash] @ L ''b'')" by code_simp
  have 3: "quote \<notin> set (L ''a'' @ [bslash] @ L ''b'')" by code_simp
  from no_op_case [OF 1 2 3] 1 2 3 show ?thesis by simp
qed

section \<open>Backslash runs\<close>




section \<open>The examples of RelativeTo\<close>

text \<open>
  C3, as stated: \<open>C:\\foo\<close> against \<open>C:\\foo\\bar\<close> gives the two-character string
  \<open>..\<close>. The code writes \<open>..\\\<close> for each segment of \<open>base\<close> left, the backslash
  included, so the result has three characters.
\<close>

theorem RelativeTo_parent_counterexample:
  "RelativeTo IsAbsolute (L ''C:'' @ [bslash] @ L ''foo'')
       (L ''C:'' @ [bslash] @ L ''foo'' @ [bslash] @ L ''bar'')
       \<lparr>result_buf = [], err_out = []\<rparr>
     \<noteq> Some (True, \<lparr>result_buf = L ''..'', err_out = []\<rparr>)"
  by code_simp

text \<open>
  C3, amended: \<open>C:\\foo\\bar1\<close> against \<open>C:\\foo\\bar2\<close> gives \<open>..\\bar1\<close>;
  \<open>C:\\foo\\bar\<close> against \<open>C:\\foo\<close> gives \<open>bar\<close>; \<open>C:\\foo\<close> against
  \<open>C:\\foo\\bar\<close> gives the three-character string \<open>..\\\<close>; \<open>C:\\foo\<close> against
  itself gives the empty string. Each call returns \<open>true\<close> and writes nothing to
  \<open>stderr\<close>.
\<close>

theorem RelativeTo_examples:
  "RelativeTo IsAbsolute (L ''C:'' @ [bslash] @ L ''foo'' @ [bslash] @ L ''bar1'')
       (L ''C:'' @ [bslash] @ L ''foo'' @ [bslash] @ L ''bar2'') \<sigma>
     = Some (True, \<sigma>\<lparr>result_buf := L ''..'' @ [bslash] @ L ''bar1''\<rparr>)
   \<and> RelativeTo IsAbsolute (L ''C:'' @ [bslash] @ L ''foo'' @ [bslash] @ L ''bar'')
       (L ''C:'' @ [bslash] @ L ''foo'') \<sigma>
     = Some (True, \<sigma>\<lparr>result_buf := L ''bar''\<rparr>)
   \<and> RelativeTo IsAbsolute (L ''C:'' @ [bslash] @ L ''foo'')
       (L ''C:'' @ [bslash] @ L ''foo'' @ [bslash] @ L ''bar'') \<sigma>
     = Some (True, \<sigma>\<lparr>result_buf := L ''..'' @ [bslash]\<rparr>)
   \<and> RelativeTo IsAbsolute (L ''C:'' @ [bslash] @ L ''foo'') (L ''C:'' @ [bslash] @ L ''foo'') \<sigma>
     = Some (True, \<sigma>\<lparr>result_buf := []\<rparr>)"
  by code_simp

section \<open>The failures of RelativeTo\<close>

text \<open>
  C6. \<open>RelativeTo\<close> returns \<open>false\<close>, its one failure value, when exactly one of
  \<open>path\<close> and \<open>base\<close> is absolute, and when both are absolute with different drive
  identifiers.
\<close>

theorem RelativeTo_input_mismatch:
  assumes "IsAbsolute path \<noteq> IsAbsolute base
         \<or> (IsAbsolute path \<and> IsAbsolute base
             \<and> drive_identifier path \<noteq> drive_identifier base)"
  shows "\<exists>\<sigma>'. RelativeTo IsAbsolute path base \<sigma> = Some (False, \<sigma>')"
  using assms RelativeTo_mixed [of IsAbsolute path base \<sigma>]
    RelativeTo_drives [of IsAbsolute path base \<sigma>] IsAbsolute_drive [of path base]
  by blast

text \<open>The two failures the specification names: \<open>C:\\foo\<close> against \<open>bar\<close>, and
  \<open>C:\\foo\<close> against \<open>D:\\foo\<close>.\<close>

theorem RelativeTo_input_mismatch_witness:
  "IsAbsolute (L ''C:'' @ [bslash] @ L ''foo'') \<noteq> IsAbsolute (L ''bar'')
   \<and> (\<exists>\<sigma>'. RelativeTo IsAbsolute (L ''C:'' @ [bslash] @ L ''foo'') (L ''bar'')
              \<lparr>result_buf = [], err_out = []\<rparr> = Some (False, \<sigma>'))
   \<and> IsAbsolute (L ''C:'' @ [bslash] @ L ''foo'')
   \<and> IsAbsolute (L ''D:'' @ [bslash] @ L ''foo'')
   \<and> drive_identifier (L ''C:'' @ [bslash] @ L ''foo'')
       \<noteq> drive_identifier (L ''D:'' @ [bslash] @ L ''foo'')
   \<and> (\<exists>\<sigma>'. RelativeTo IsAbsolute (L ''C:'' @ [bslash] @ L ''foo'')
              (L ''D:'' @ [bslash] @ L ''foo'')
              \<lparr>result_buf = [], err_out = []\<rparr> = Some (False, \<sigma>'))"
proof -
  have 1: "IsAbsolute (L ''C:'' @ [bslash] @ L ''foo'') \<noteq> IsAbsolute (L ''bar'')"
    by code_simp
  have 2: "IsAbsolute (L ''C:'' @ [bslash] @ L ''foo'')" by code_simp
  have 3: "IsAbsolute (L ''D:'' @ [bslash] @ L ''foo'')" by code_simp
  have 4: "drive_identifier (L ''C:'' @ [bslash] @ L ''foo'')
       \<noteq> drive_identifier (L ''D:'' @ [bslash] @ L ''foo'')"
    by code_simp
  show ?thesis
    using 1 2 3 4
      RelativeTo_input_mismatch [of "L ''C:'' @ [bslash] @ L ''foo''" "L ''bar''"
        "\<lparr>result_buf = [], err_out = []\<rparr>"]
      RelativeTo_input_mismatch [of "L ''C:'' @ [bslash] @ L ''foo''"
        "L ''D:'' @ [bslash] @ L ''foo''" "\<lparr>result_buf = [], err_out = []\<rparr>"]
    by blast
qed

text \<open>
  C9. Whenever \<open>RelativeTo\<close> returns \<open>false\<close>, the string behind \<open>result\<close> is the one
  it was before the call.
\<close>

theorem RelativeTo_failure_keeps_result:
  "RelativeTo isabs path base \<sigma> = Some (False, \<sigma>') \<Longrightarrow> result_buf \<sigma>' = result_buf \<sigma>"
  by (auto dest!: RelativeTo_False_cases simp: PrintError_def)

theorem RelativeTo_failure_keeps_result_witness:
  "RelativeTo IsAbsolute (L ''C:'' @ [bslash] @ L ''foo'') (L ''bar'')
       \<lparr>result_buf = L ''old'', err_out = []\<rparr>
     = Some (False, PrintError (mixed_message (L ''C:'' @ [bslash] @ L ''foo'') (L ''bar''))
         \<lparr>result_buf = L ''old'', err_out = []\<rparr>)
   \<and> result_buf (PrintError (mixed_message (L ''C:'' @ [bslash] @ L ''foo'') (L ''bar''))
         \<lparr>result_buf = L ''old'', err_out = []\<rparr>) = L ''old''"
proof -
  have ne: "IsAbsolute (L ''C:'' @ [bslash] @ L ''foo'') \<noteq> IsAbsolute (L ''bar'')"
    by code_simp
  have run: "RelativeTo IsAbsolute (L ''C:'' @ [bslash] @ L ''foo'') (L ''bar'')
       \<lparr>result_buf = L ''old'', err_out = []\<rparr>
     = Some (False, PrintError (mixed_message (L ''C:'' @ [bslash] @ L ''foo'') (L ''bar''))
         \<lparr>result_buf = L ''old'', err_out = []\<rparr>)"
    by (rule RelativeTo_mixed [OF ne])
  from RelativeTo_failure_keeps_result [OF run] run show ?thesis by simp
qed

text \<open>
  C5, as stated: the module never logs. On an invalid pair \<open>RelativeTo\<close> calls
  \<open>PrintError\<close>, which writes to \<open>stderr\<close>.
\<close>

theorem RelativeTo_logs_counterexample:
  "err_out (snd (the (RelativeTo IsAbsolute (L ''C:'' @ [bslash] @ L ''foo'') (L ''bar'')
       \<lparr>result_buf = [], err_out = []\<rparr>))) \<noteq> []"
  by code_simp

text \<open>
  C5, amended: on every invalid pair \<open>RelativeTo\<close> returns \<open>false\<close> to the caller, and
  the process goes on; before it returns it has written one diagnostic to \<open>stderr\<close>
  through \<open>PrintError\<close>, the prefix \<open>LAUNCHER ERROR: \<close> and one of its two messages,
  which names both paths, and it has changed nothing else.
\<close>

theorem RelativeTo_failure_reported:
  assumes "invalid_pair isabs path base"
  shows "\<exists>message.
           RelativeTo isabs path base \<sigma>
             = Some (False,
                 \<sigma>\<lparr>err_out := err_out \<sigma> @ L ''LAUNCHER ERROR: '' @ message @ [newline]\<rparr>)
           \<and> message \<in> {mixed_message path base, drives_message path base}"
proof (cases "isabs path = isabs base")
  case True
  with assms have "isabs path" "isabs base" "wat path 0 \<noteq> wat base 0"
    by (simp_all add: invalid_pair_def)
  then have "RelativeTo isabs path base \<sigma>
      = Some (False, PrintError (drives_message path base) \<sigma>)"
    by (rule RelativeTo_drives)
  then show ?thesis
    by (intro exI [of _ "drives_message path base"]) (simp add: PrintError_def)
next
  case False
  then have "RelativeTo isabs path base \<sigma>
      = Some (False, PrintError (mixed_message path base) \<sigma>)"
    by (rule RelativeTo_mixed)
  then show ?thesis
    by (intro exI [of _ "mixed_message path base"]) (simp add: PrintError_def)
qed

theorem RelativeTo_failure_reported_witness:
  "invalid_pair IsAbsolute (L ''C:'' @ [bslash] @ L ''foo'') (L ''D:'' @ [bslash] @ L ''foo'')
   \<and> (\<exists>message.
         RelativeTo IsAbsolute (L ''C:'' @ [bslash] @ L ''foo'') (L ''D:'' @ [bslash] @ L ''foo'')
             \<lparr>result_buf = [], err_out = []\<rparr>
           = Some (False,
               \<lparr>result_buf = [], err_out = L ''LAUNCHER ERROR: '' @ message @ [newline]\<rparr>)
         \<and> message \<in> {mixed_message (L ''C:'' @ [bslash] @ L ''foo'')
                          (L ''D:'' @ [bslash] @ L ''foo''),
                        drives_message (L ''C:'' @ [bslash] @ L ''foo'')
                          (L ''D:'' @ [bslash] @ L ''foo'')})"
proof -
  have inv: "invalid_pair IsAbsolute (L ''C:'' @ [bslash] @ L ''foo'')
      (L ''D:'' @ [bslash] @ L ''foo'')"
    by code_simp
  from RelativeTo_failure_reported [OF inv, of "\<lparr>result_buf = [], err_out = []\<rparr>"] inv
  show ?thesis by simp
qed

section \<open>The lockstep scan\<close>



section \<open>The consistency law\<close>




end
